theory Spec2Isabelle
  imports Complex_Main
begin

section \<open>Data model of App.tsx\<close>

text \<open>
  The component keeps its UI state in React state cells (\<open>history\<close>, \<open>centerPanel\<close>,
  \<open>feedback\<close>, \<open>volume\<close>) and its audio resources in refs. Every state update of the
  handlers modelled here is either a functional updater (\<open>setX(prev => ...)\<close>) or a plain
  value (\<open>setFeedback\<close>, \<open>setVolume\<close>), and React applies the queued updates in
  the order of the calls, so the model passes one state record through the calls in
  source order.
\<close>

datatype role = User | Model

text \<open>\<open>Message\<close> of types.ts; \<open>id\<close> and \<open>text\<close> carry a suffix.\<close>

record message =
  id_m :: string
  role_m :: role
  text_m :: string
  timestamp_m :: nat

record center_panel =
  question :: string
  status :: string
  transcript :: string

text \<open>
  A JavaScript value as a function call can carry it in its arguments: \<open>undefined\<close> for
  a property that is absent, \<open>null\<close>, a boolean, a number, a string, or an object (arrays
  are objects). The content of an object is opaque to the handlers, hence the type
  parameter.
\<close>

datatype 'o js_value =
  JsUndefined | JsNull | JsBoolean bool | JsNumber real | JsString string | JsObject 'o

text \<open>
  The arguments of an \<open>update_ui\<close> call. \<open>center_panel_question\<close>,
  \<open>status_message\<close> and \<open>mode\<close> are typed as \<open>updateUiFunctionDeclaration\<close> declares
  them, strings that are not required, \<open>None\<close> being a property that is absent.
  \<open>feedback\<close> is declared an object; the handler reads \<open>args\<close> as \<open>any\<close>, tests the
  property for truthiness and stores it as it comes in a state cell of type \<open>any\<close>, so
  it is kept as a value of any kind.
\<close>

record 'fb update_ui_args =
  center_panel_question :: "string option"
  status_message :: "string option"
  feedback_arg :: "'fb js_value"
  mode_arg :: "string option"

record 'fb function_call =
  call_id :: string
  call_name :: string
  call_args :: "'fb update_ui_args"

record function_response =
  resp_id :: string
  resp_name :: string
  resp_result :: string

text \<open>\<open>AudioBlob\<close> of types.ts.\<close>

record audio_blob =
  data :: string
  mimeType :: string

text \<open>
  A model-turn part. \<open>inlineData\<close> holds, when present, the duration in seconds of the
  audio buffer that \<open>decodeAudioData\<close> makes of the part's payload; the scheduler reads
  nothing else of the buffer.
\<close>

record part =
  inlineData :: "real option"

record server_content =
  modelTurn :: "part list option"
  outputTranscription :: "string option"
  inputTranscription :: "string option"
  turnComplete :: bool

record 'fb live_server_message =
  toolCall :: "'fb function_call list option"
  serverContent :: "server_content option"

text \<open>
  An \<open>AudioBufferSourceNode\<close> made by the scheduler: its identity, whether \<open>start\<close>
  was called on it, the time it was started at and the duration of its buffer.
\<close>

record source_node =
  sid :: nat
  started :: bool
  startTime :: real
  duration :: real

text \<open>Calls on nodes and contexts that leave no trace in the component's own state.\<close>

datatype web_audio_call = Disconnect nat | Close nat

text \<open>
  The state: the React cells, the refs, and what the browser and the session hold.
  \<open>volume\<close> is \<open>None\<close> when the number is NaN. \<open>playing\<close> lists the identities of
  the sources that are started and neither ended nor stopped. \<open>created\<close> counts the
  Web Audio objects made so far, and the identity of an object is the count at its making.
  \<open>web_audio_log\<close>, \<open>toolResponses\<close> and \<open>realtimeInput\<close> record, in order, the
  calls made on nodes and contexts and the two kinds of message sent to the session.
\<close>

record 'fb app_state =
  active :: bool
  history :: "message list"
  centerPanel :: center_panel
  feedback :: "'fb js_value"
  volume :: "real option"
  inputAudioContextRef :: "nat option"
  outputAudioContextRef :: "nat option"
  inputSourceRef :: "nat option"
  processorRef :: "nat option"
  nextStartTimeRef :: real
  audioQueueRef :: "source_node list"
  playing :: "nat list"
  created :: nat
  web_audio_log :: "web_audio_call list"
  toolResponses :: "function_response list list"
  realtimeInput :: "audio_blob list"

text \<open>The state of the first render: \<open>useState\<close> and \<open>useRef\<close> initial values.\<close>

definition initial_centerPanel :: center_panel where
  "initial_centerPanel =
     \<lparr>question = ''Ready to start?'', status = ''Click the mic to begin'', transcript = ''''\<rparr>"

definition initial_state :: "'fb app_state" where
  "initial_state =
     \<lparr>active = False, history = [], centerPanel = initial_centerPanel, feedback = JsNull,
      volume = Some 0, inputAudioContextRef = None, outputAudioContextRef = None, inputSourceRef = None,
      processorRef = None, nextStartTimeRef = 0, audioQueueRef = [], playing = [],
      created = 0, web_audio_log = [], toolResponses = [], realtimeInput = []\<rparr>"

section \<open>Event router: tool calls\<close>

text \<open>
  JavaScript truthiness of an optional string property: absent and the empty string
  are falsy.
\<close>

fun truthy :: "string option \<Rightarrow> bool" where
  "truthy None = False"
| "truthy (Some s) = (s \<noteq> [])"

text \<open>
  JavaScript truthiness of a value: \<open>undefined\<close>, \<open>null\<close>, \<open>false\<close>, zero and the
  empty string are falsy, every other value is truthy, an object always.
\<close>

fun truthy_value :: "'o js_value \<Rightarrow> bool" where
  "truthy_value JsUndefined = False"
| "truthy_value JsNull = False"
| "truthy_value (JsBoolean b) = b"
| "truthy_value (JsNumber x) = (x \<noteq> 0)"
| "truthy_value (JsString s) = (s \<noteq> [])"
| "truthy_value (JsObject obj) = True"

text \<open>
  The body of \<open>if (call.name === "update_ui")\<close> up to the \<open>push\<close>: three independent
  updates, each guarded by the truthiness of its own argument.
\<close>

definition set_question :: "'fb update_ui_args \<Rightarrow> 'fb app_state \<Rightarrow> 'fb app_state" where
  "set_question args st =
     (if truthy (center_panel_question args)
      then st\<lparr>centerPanel := (centerPanel st)\<lparr>question := the (center_panel_question args)\<rparr>\<rparr>
      else st)"

definition set_status :: "'fb update_ui_args \<Rightarrow> 'fb app_state \<Rightarrow> 'fb app_state" where
  "set_status args st =
     (if truthy (status_message args)
      then st\<lparr>centerPanel := (centerPanel st)\<lparr>status := the (status_message args)\<rparr>\<rparr>
      else st)"

definition set_feedback :: "'fb update_ui_args \<Rightarrow> 'fb app_state \<Rightarrow> 'fb app_state" where
  "set_feedback args st =
     (if truthy_value (feedback_arg args) then st\<lparr>feedback := feedback_arg args\<rparr> else st)"

definition update_ui :: "'fb update_ui_args \<Rightarrow> 'fb app_state \<Rightarrow> 'fb app_state" where
  "update_ui args st = set_feedback args (set_status args (set_question args st))"

definition ack :: "'fb function_call \<Rightarrow> function_response" where
  "ack call = \<lparr>resp_id = call_id call, resp_name = call_name call, resp_result = ''success''\<rparr>"

text \<open>The loop \<open>for (const call of calls)\<close>, with the \<open>responses\<close> array as accumulator.\<close>

fun handle_calls ::
  "'fb function_call list \<Rightarrow> 'fb app_state \<Rightarrow> function_response list
     \<Rightarrow> 'fb app_state \<times> function_response list" where
  "handle_calls [] st responses = (st, responses)"
| "handle_calls (call # calls) st responses =
     (if call_name call = ''update_ui''
      then handle_calls calls (update_ui (call_args call) st) (responses @ [ack call])
      else handle_calls calls st responses)"

text \<open>
  The block \<open>if (msg.toolCall)\<close>: run the loop from an empty \<open>responses\<close> array and
  send the array to the session, whatever its length.
\<close>

definition handle_toolCall :: "'fb function_call list \<Rightarrow> 'fb app_state \<Rightarrow> 'fb app_state" where
  "handle_toolCall calls st =
     (case handle_calls calls st [] of
        (st', responses) \<Rightarrow> st'\<lparr>toolResponses := toolResponses st' @ [responses]\<rparr>)"

section \<open>Playback scheduler\<close>

text \<open>
  Lines 227 to 237 of the handler, for a decoded buffer of duration \<open>dur\<close> at context
  time \<open>now\<close>: make a source, start it at the later of \<open>now\<close> and the cursor, move
  the cursor to the end of the buffer, push the source on the queue.
\<close>

definition schedule_chunk :: "real \<Rightarrow> real \<Rightarrow> 'fb app_state \<Rightarrow> 'fb app_state" where
  "schedule_chunk now dur st =
     (let start = max now (nextStartTimeRef st);
          source = \<lparr>sid = created st, started = True, startTime = start, duration = dur\<rparr>
      in st\<lparr>nextStartTimeRef := start + dur,
            audioQueueRef := audioQueueRef st @ [source],
            playing := playing st @ [sid source],
            created := Suc (created st)\<rparr>)"

text \<open>\<open>indexOf\<close> and \<open>splice(idx, 1)\<close>: drop the first element that is the given node.\<close>

fun splice_source :: "nat \<Rightarrow> source_node list \<Rightarrow> source_node list" where
  "splice_source i [] = []"
| "splice_source i (s # ss) = (if sid s = i then ss else s # splice_source i ss)"

text \<open>The \<open>onended\<close> callback of a source, run when its playback is over.\<close>

definition onended :: "source_node \<Rightarrow> 'fb app_state \<Rightarrow> 'fb app_state" where
  "onended source st =
     st\<lparr>playing := removeAll (sid source) (playing st),
        audioQueueRef := splice_source (sid source) (audioQueueRef st)\<rparr>"

text \<open>
  The audio branch: the first part with inline data, if any, is scheduled, provided the
  output context is there.
\<close>

definition handle_modelTurn :: "real \<Rightarrow> server_content \<Rightarrow> 'fb app_state \<Rightarrow> 'fb app_state" where
  "handle_modelTurn now sc st =
     (case modelTurn sc of
        None \<Rightarrow> st
      | Some parts \<Rightarrow>
          (case List.find (\<lambda>p. inlineData p \<noteq> None) parts of
             None \<Rightarrow> st
           | Some audioPart \<Rightarrow>
               (case (inlineData audioPart, outputAudioContextRef st) of
                  (Some dur, Some ctx) \<Rightarrow> schedule_chunk now dur st
                | _ \<Rightarrow> st)))"

text \<open>A run of the scheduler over chunks given as (context time, duration), in order.\<close>

fun schedule_all :: "(real \<times> real) list \<Rightarrow> 'fb app_state \<Rightarrow> 'fb app_state" where
  "schedule_all [] st = st"
| "schedule_all (c # cs) st = schedule_all cs (schedule_chunk (fst c) (snd c) st)"

section \<open>Event router: transcripts\<close>

text \<open>\<open>Date.now().toString()\<close>: the decimal digits of the clock reading.\<close>

fun decimal :: "nat \<Rightarrow> string" where
  "decimal n =
     (if n < 10 then [char_of (48 + n)] else decimal (n div 10) @ [char_of (48 + n mod 10)])"

declare decimal.simps [simp del]

definition new_message :: "nat \<Rightarrow> role \<Rightarrow> string \<Rightarrow> message" where
  "new_message now r t = \<lparr>id_m = decimal now, role_m = r, text_m = t, timestamp_m = now\<rparr>"

definition handle_outputTranscription ::
  "nat \<Rightarrow> server_content \<Rightarrow> 'fb app_state \<Rightarrow> 'fb app_state" where
  "handle_outputTranscription now sc st =
     (if truthy (outputTranscription sc)
      then st\<lparr>history := history st @ [new_message now Model (the (outputTranscription sc))]\<rparr>
      else st)"

definition handle_inputTranscription :: "server_content \<Rightarrow> 'fb app_state \<Rightarrow> 'fb app_state" where
  "handle_inputTranscription sc st =
     (if truthy (inputTranscription sc)
      then st\<lparr>centerPanel := (centerPanel st)\<lparr>transcript := the (inputTranscription sc)\<rparr>\<rparr>
      else st)"

text \<open>
  The commit on turn-complete. The \<open>centerPanel\<close> that the condition and the new
  entry read is not the state cell: it is the constant of the render in which
  \<open>connectToGemini\<close> was called, which the handler closes over and which no
  \<open>setCenterPanel\<close> changes. It is the parameter \<open>rendered\<close> here. The updater that
  clears the transcript works on the state cell.
\<close>

definition handle_turnComplete ::
  "center_panel \<Rightarrow> nat \<Rightarrow> server_content \<Rightarrow> 'fb app_state \<Rightarrow> 'fb app_state" where
  "handle_turnComplete rendered now sc st =
     (if turnComplete sc \<and> transcript rendered \<noteq> []
      then st\<lparr>history := history st @ [new_message now User (transcript rendered)],
              centerPanel := (centerPanel st)\<lparr>transcript := []\<rparr>\<rparr>
      else st)"

text \<open>
  The handler \<open>onmessage\<close>, run to its end for one message: \<open>rendered\<close> is the
  \<open>centerPanel\<close> it closes over, \<open>currentTime\<close> the clock of the output context and
  \<open>now\<close> the wall clock in milliseconds.
\<close>

definition onmessage ::
  "center_panel \<Rightarrow> real \<Rightarrow> nat \<Rightarrow> 'fb live_server_message \<Rightarrow> 'fb app_state \<Rightarrow> 'fb app_state" where
  "onmessage rendered currentTime now msg st =
     (let st1 = (case toolCall msg of Some calls \<Rightarrow> handle_toolCall calls st | None \<Rightarrow> st)
      in case serverContent msg of
           None \<Rightarrow> st1
         | Some sc \<Rightarrow>
             handle_turnComplete rendered now sc
               (handle_inputTranscription sc
                 (handle_outputTranscription now sc
                   (handle_modelTurn currentTime sc st1))))"

text \<open>Messages handled one after the other by the handler of one session.\<close>

fun onmessages ::
  "center_panel \<Rightarrow> (real \<times> nat \<times> 'fb live_server_message) list \<Rightarrow> 'fb app_state
     \<Rightarrow> 'fb app_state" where
  "onmessages rendered [] st = st"
| "onmessages rendered ((currentTime, now, msg) # msgs) st =
     onmessages rendered msgs (onmessage rendered currentTime now msg st)"

section \<open>Capture pipeline\<close>

text \<open>
  The loop \<open>for (i = 0; i < inputData.length; i++) sum += inputData[i] * inputData[i]\<close>,
  with the variable \<open>sum\<close> as accumulator.
\<close>

fun sum_loop :: "real list \<Rightarrow> real \<Rightarrow> real" where
  "sum_loop [] acc = acc"
| "sum_loop (x # xs) acc = sum_loop xs (acc + x * x)"

text \<open>
  The callback \<open>onaudioprocess\<close> on one window of samples. Samples and sums are real
  numbers here, so the rounding of the floating-point operations is left out; the
  quotient \<open>0 / 0\<close> of an empty window is NaN. \<open>createPcmBlob\<close> is a parameter: it is
  imported from utils/audioUtils.
\<close>

definition onaudioprocess ::
  "(real list \<Rightarrow> audio_blob) \<Rightarrow> real list \<Rightarrow> 'fb app_state \<Rightarrow> 'fb app_state" where
  "onaudioprocess createPcmBlob inputData st =
     (let total = sum_loop inputData 0;
          pcmBlob = createPcmBlob inputData
      in st\<lparr>volume := (if inputData = [] then None
                        else Some (sqrt (total / real (length inputData)))),
            realtimeInput := realtimeInput st @ [pcmBlob]\<rparr>)"

section \<open>Session start and teardown\<close>

text \<open>
  \<open>connectToGemini\<close> on the path where the key, the microphone and the connection are
  there: two audio contexts are made, and the callbacks of the new session close over the
  \<open>centerPanel\<close> of the render that the call comes from, returned here as first
  component.
\<close>

definition connectToGemini :: "'fb app_state \<Rightarrow> center_panel \<times> 'fb app_state" where
  "connectToGemini st =
     (centerPanel st,
      st\<lparr>inputAudioContextRef := Some (created st),
         outputAudioContextRef := Some (created st + 1),
         created := created st + 2\<rparr>)"

definition onopen :: "'fb app_state \<Rightarrow> 'fb app_state" where
  "onopen st =
     (let st1 = st\<lparr>active := True,
                     centerPanel := (centerPanel st)\<lparr>status := ''Connected. Listening...''\<rparr>\<rparr>
      in case inputAudioContextRef st1 of
           None \<Rightarrow> st1
         | Some ctx \<Rightarrow>
             st1\<lparr>inputSourceRef := Some (created st1),
                 processorRef := Some (created st1 + 1),
                 created := created st1 + 2\<rparr>)"

text \<open>
  \<open>stop()\<close> of a source node raises InvalidStateError when \<open>start\<close> was never called
  on the node; otherwise the node stops playing.
\<close>

datatype error = InvalidStateError

definition stop :: "source_node \<Rightarrow> 'fb app_state \<Rightarrow> error + 'fb app_state" where
  "stop s st =
     (if started s then Inr (st\<lparr>playing := removeAll (sid s) (playing st)\<rparr>)
      else Inl InvalidStateError)"

text \<open>\<open>audioQueueRef.current.forEach(s => s.stop())\<close>: the first exception ends the loop.\<close>

fun stop_all :: "source_node list \<Rightarrow> 'fb app_state \<Rightarrow> error + 'fb app_state" where
  "stop_all [] st = Inr st"
| "stop_all (s # ss) st = (case stop s st of Inl e \<Rightarrow> Inl e | Inr st' \<Rightarrow> stop_all ss st')"

definition release_processor :: "'fb app_state \<Rightarrow> 'fb app_state" where
  "release_processor st =
     (case processorRef st of
        Some n \<Rightarrow> st\<lparr>web_audio_log := web_audio_log st @ [Disconnect n], processorRef := None\<rparr>
      | None \<Rightarrow> st)"

definition release_inputSource :: "'fb app_state \<Rightarrow> 'fb app_state" where
  "release_inputSource st =
     (case inputSourceRef st of
        Some n \<Rightarrow> st\<lparr>web_audio_log := web_audio_log st @ [Disconnect n], inputSourceRef := None\<rparr>
      | None \<Rightarrow> st)"

definition close_inputAudioContext :: "'fb app_state \<Rightarrow> 'fb app_state" where
  "close_inputAudioContext st =
     (case inputAudioContextRef st of
        Some c \<Rightarrow> st\<lparr>web_audio_log := web_audio_log st @ [Close c], inputAudioContextRef := None\<rparr>
      | None \<Rightarrow> st)"

definition close_outputAudioContext :: "'fb app_state \<Rightarrow> 'fb app_state" where
  "close_outputAudioContext st =
     (case outputAudioContextRef st of
        Some c \<Rightarrow> st\<lparr>web_audio_log := web_audio_log st @ [Close c], outputAudioContextRef := None\<rparr>
      | None \<Rightarrow> st)"

text \<open>
  \<open>cleanup\<close>: the four guarded releases in source order, then the loop over the queue,
  then the queue is replaced by an empty array. \<open>Inl\<close> is an exception leaving the
  function.
\<close>

definition cleanup :: "'fb app_state \<Rightarrow> error + 'fb app_state" where
  "cleanup st =
     (let st4 = close_outputAudioContext (close_inputAudioContext
                  (release_inputSource (release_processor st)))
      in case stop_all (audioQueueRef st4) st4 of
           Inl e \<Rightarrow> Inl e
         | Inr st5 \<Rightarrow> Inr (st5\<lparr>audioQueueRef := []\<rparr>))"

text \<open>The callbacks \<open>onclose\<close> and \<open>onerror\<close> of the session.\<close>

definition onclose :: "'fb app_state \<Rightarrow> error + 'fb app_state" where
  "onclose st =
     cleanup (st\<lparr>active := False, centerPanel := (centerPanel st)\<lparr>status := ''Session Ended''\<rparr>\<rparr>)"

definition onerror :: "'fb app_state \<Rightarrow> error + 'fb app_state" where
  "onerror st =
     cleanup (st\<lparr>active := False,
                 centerPanel := (centerPanel st)\<lparr>status := ''Error connecting''\<rparr>\<rparr>)"

definition handleEndSession :: "'fb app_state \<Rightarrow> 'fb app_state" where
  "handleEndSession st = st\<lparr>active := False\<rparr>"

section \<open>States the component can reach\<close>

text \<open>
  The handlers as transitions. \<open>onmessage\<close> suspends at \<open>await decodeAudioData\<close>, so
  other handlers may run between the part of it before the scheduling and the rest; the
  rule \<open>resumed\<close> lets the scheduling run on its own, in any state, and the parts before
  and after it are instances of \<open>message\<close>.
\<close>

inductive reachable :: "'fb app_state \<Rightarrow> bool" where
  init: "reachable initial_state"
| connect: "reachable st \<Longrightarrow> reachable (snd (connectToGemini st))"
| opened: "reachable st \<Longrightarrow> reachable (onopen st)"
| message: "reachable st \<Longrightarrow> reachable (onmessage rendered currentTime now msg st)"
| resumed: "reachable st \<Longrightarrow> reachable (schedule_chunk currentTime dur st)"
| capture: "reachable st \<Longrightarrow> reachable (onaudioprocess encoder inputData st)"
| ended: "reachable st \<Longrightarrow> reachable (onended source st)"
| end_session: "reachable st \<Longrightarrow> reachable (handleEndSession st)"
| closed: "reachable st \<Longrightarrow> onclose st = Inr st' \<Longrightarrow> reachable st'"
| failed: "reachable st \<Longrightarrow> onerror st = Inr st' \<Longrightarrow> reachable st'"

text \<open>
  What the scheduler keeps true of the queue: its sources are started, and a source that
  plays is queued.
\<close>

definition queue_inv :: "'fb app_state \<Rightarrow> bool" where
  "queue_inv st \<longleftrightarrow>
     list_all started (audioQueueRef st)
     \<and> list_all (\<lambda>i. i \<in> sid ` set (audioQueueRef st)) (playing st)"

section \<open>Concrete messages and sessions\<close>

definition no_content :: server_content where
  "no_content =
     \<lparr>modelTurn = None, outputTranscription = None, inputTranscription = None,
      turnComplete = False\<rparr>"

definition input_transcript_msg :: "string \<Rightarrow> unit live_server_message" where
  "input_transcript_msg t =
     \<lparr>toolCall = None, serverContent = Some (no_content\<lparr>inputTranscription := Some t\<rparr>)\<rparr>"

definition turn_complete_msg :: "unit live_server_message" where
  "turn_complete_msg =
     \<lparr>toolCall = None, serverContent = Some (no_content\<lparr>turnComplete := True\<rparr>)\<rparr>"

definition output_and_turn_complete_msg :: "string \<Rightarrow> unit live_server_message" where
  "output_and_turn_complete_msg t =
     \<lparr>toolCall = None,
      serverContent = Some (no_content\<lparr>outputTranscription := Some t, turnComplete := True\<rparr>)\<rparr>"

definition audio_msg :: "real \<Rightarrow> unit live_server_message" where
  "audio_msg dur =
     \<lparr>toolCall = None,
      serverContent = Some (no_content\<lparr>modelTurn := Some [\<lparr>inlineData = Some dur\<rparr>]\<rparr>)\<rparr>"

text \<open>
  The first session of a freshly loaded page: the mic button is clicked in the first
  render, the session opens, three partial input transcripts arrive and then
  turn-complete.
\<close>

definition first_session :: "unit app_state" where
  "first_session =
     (case connectToGemini initial_state of
        (rendered, st) \<Rightarrow>
          onmessages rendered
            [(0, 1, input_transcript_msg ''h''), (0, 2, input_transcript_msg ''he''),
             (0, 3, input_transcript_msg ''hello''), (0, 4, turn_complete_msg)]
            (onopen st))"

text \<open>
  The first session is closed, the button is clicked again, and the second session
  receives turn-complete twice with no input transcript in between.
\<close>

definition second_session :: "error + unit app_state" where
  "second_session =
     (case onclose first_session of
        Inl e \<Rightarrow> Inl e
      | Inr st \<Rightarrow>
          (case connectToGemini st of
             (rendered, st') \<Rightarrow>
               Inr (onmessages rendered [(0, 5, turn_complete_msg), (0, 6, turn_complete_msg)]
                      (onopen st'))))"

definition no_args :: "unit update_ui_args" where
  "no_args =
     \<lparr>center_panel_question = None, status_message = None, feedback_arg = JsUndefined,
      mode_arg = None\<rparr>"

definition first_call :: "unit function_call" where
  "first_call =
     \<lparr>call_id = ''call-1'', call_name = ''update_ui'',
      call_args = no_args\<lparr>center_panel_question := Some ''Tell me about yourself''\<rparr>\<rparr>"

definition second_call :: "unit function_call" where
  "second_call =
     \<lparr>call_id = ''call-2'', call_name = ''update_ui'',
      call_args = no_args\<lparr>status_message := Some ''Listening...'',
                           feedback_arg := JsObject ()\<rparr>\<rparr>"

text \<open>
  A call whose question and feedback are present and are the empty string, and a state in
  which a question and a feedback are on display.
\<close>

definition empty_question_call :: "unit function_call" where
  "empty_question_call =
     \<lparr>call_id = ''call-3'', call_name = ''update_ui'',
      call_args = no_args\<lparr>center_panel_question := Some [],
                           status_message := Some ''Evaluating...'',
                           feedback_arg := JsString []\<rparr>\<rparr>"

definition evaluated_state :: "unit app_state" where
  "evaluated_state = initial_state\<lparr>feedback := JsObject ()\<rparr>"

text \<open>The definitions that make up \<open>onmessage\<close>, for evaluating it on concrete messages.\<close>

lemmas router_defs = onmessage_def handle_turnComplete_def handle_inputTranscription_def
  handle_outputTranscription_def handle_modelTurn_def

text \<open>The four guarded releases at the head of \<open>cleanup\<close>, as one step.\<close>

definition released :: "'fb app_state \<Rightarrow> 'fb app_state" where
  "released st = close_outputAudioContext (close_inputAudioContext
                  (release_inputSource (release_processor st)))"

text \<open>
  Three chunks, as (context time at arrival, duration): the second arrives before the
  first has played, the third after a pause.
\<close>

definition three_chunks :: "(real \<times> real) list" where
  "three_chunks = [(0, 1), (1 / 2, 2), (5, 1)]"

text \<open>A session that has received two audio chunks, both still playing or waiting to play.\<close>

definition playing_session :: "unit app_state" where
  "playing_session =
     onmessage initial_centerPanel 1 2 (audio_msg 3)
       (onmessage initial_centerPanel 0 1 (audio_msg 2)
         (onopen (snd (connectToGemini initial_state))))"

section \<open>PCM encoder\<close>

text \<open>
  Modelled from the spec: \<open>createPcmBlob\<close> of utils/audioUtils, which is not among the
  sources. The spec gives the encoder as: samples in \<open>[-1, 1]\<close>, a sample out of that
  range is clamped, each sample is quantised to a 16-bit integer, the integers are laid
  out little-endian, the bytes are wrapped in base64 and the result is tagged with a fixed
  mime descriptor. The spec names neither the scale nor the rounding nor the descriptor.
  The model takes the scale \<open>2\<^sup>1\<^sup>5\<close> of signed 16-bit samples and the truncation towards
  zero of a store into a 16-bit integer, keeps the one product that does not fit 16 bits
  (32768, for the sample 1) at 32767, and takes the descriptor as a parameter. Samples are
  real numbers.
\<close>

definition clamp_sample :: "real \<Rightarrow> real" where
  "clamp_sample s = max (- 1) (min 1 s)"

definition trunc :: "real \<Rightarrow> int" where
  "trunc y = (if 0 \<le> y then \<lfloor>y\<rfloor> else \<lceil>y\<rceil>)"

definition to_int16 :: "real \<Rightarrow> int" where
  "to_int16 s = min 32767 (trunc (clamp_sample s * 32768))"

text \<open>Two's complement in 16 bits, low byte first; a byte is a \<open>char\<close>.\<close>

definition int16_bytes :: "int \<Rightarrow> string" where
  "int16_bytes q =
     (let u = nat (q mod 65536) in [char_of (u mod 256), char_of (u div 256)])"

definition b64_alphabet :: string where
  "b64_alphabet = ''ABCDEFGHIJKLMNOPQRSTUVWXYZabcdefghijklmnopqrstuvwxyz0123456789+/''"

definition b64_char :: "nat \<Rightarrow> char" where
  "b64_char n = b64_alphabet ! n"

text \<open>Base64 with padding (RFC 4648), three bytes to four characters.\<close>

fun base64_encode :: "string \<Rightarrow> string" where
  "base64_encode [] = []"
| "base64_encode [a] =
     [b64_char (of_char a div 4), b64_char ((of_char a mod 4) * 16), CHR ''='', CHR ''='']"
| "base64_encode [a, b] =
     [b64_char (of_char a div 4),
      b64_char ((of_char a mod 4) * 16 + of_char b div 16),
      b64_char ((of_char b mod 16) * 4), CHR ''='']"
| "base64_encode (a # b # c # rest) =
     [b64_char (of_char a div 4),
      b64_char ((of_char a mod 4) * 16 + of_char b div 16),
      b64_char ((of_char b mod 16) * 4 + of_char c div 64),
      b64_char (of_char c mod 64)] @ base64_encode rest"

definition createPcmBlob :: "string \<Rightarrow> real list \<Rightarrow> audio_blob" where
  "createPcmBlob mime samples =
     \<lparr>data = base64_encode (concat (map (\<lambda>s. int16_bytes (to_int16 s)) samples)),
      mimeType = mime\<rparr>"

text \<open>
  Modelled from the spec: the decoding that the round-trip bound of the spec refers to,
  the inverse of each layer of the encoder: base64 to bytes, pairs of bytes to signed
  16-bit integers, integers to samples by the scale of the encoder.
\<close>

fun position :: "'a \<Rightarrow> 'a list \<Rightarrow> nat option" where
  "position x [] = None"
| "position x (y # ys) = (if x = y then Some 0 else map_option Suc (position x ys))"

definition b64_index :: "char \<Rightarrow> nat option" where
  "b64_index c = position c b64_alphabet"

fun base64_decode :: "string \<Rightarrow> string option" where
  "base64_decode [] = Some []"
| "base64_decode (w # x # y # z # rest) =
     (if rest = [] \<and> z = CHR ''='' then
        (if y = CHR ''='' then
           (case (b64_index w, b64_index x) of
              (Some i, Some j) \<Rightarrow> Some [char_of (i * 4 + j div 16)]
            | _ \<Rightarrow> None)
         else
           (case (b64_index w, b64_index x, b64_index y) of
              (Some i, Some j, Some k) \<Rightarrow>
                Some [char_of (i * 4 + j div 16), char_of ((j mod 16) * 16 + k div 4)]
            | _ \<Rightarrow> None))
      else
        (case (b64_index w, b64_index x, b64_index y, b64_index z, base64_decode rest) of
           (Some i, Some j, Some k, Some l, Some bytes) \<Rightarrow>
             Some (char_of (i * 4 + j div 16) # char_of ((j mod 16) * 16 + k div 4)
                     # char_of ((k mod 4) * 64 + l) # bytes)
         | _ \<Rightarrow> None))"
| "base64_decode _ = None"

definition int16_of_bytes :: "char \<Rightarrow> char \<Rightarrow> int" where
  "int16_of_bytes lo hi =
     (let u = int (of_char lo) + 256 * int (of_char hi)
      in if u < 32768 then u else u - 65536)"

fun int16s_of_bytes :: "string \<Rightarrow> int list option" where
  "int16s_of_bytes [] = Some []"
| "int16s_of_bytes (lo # hi # rest) =
     map_option (\<lambda>qs. int16_of_bytes lo hi # qs) (int16s_of_bytes rest)"
| "int16s_of_bytes [b] = None"

definition decodePcm :: "string \<Rightarrow> real list option" where
  "decodePcm d =
     (case base64_decode d of
        None \<Rightarrow> None
      | Some bytes \<Rightarrow>
          map_option (map (\<lambda>q. real_of_int q / 32768)) (int16s_of_bytes bytes))"

section \<open>Tool calls: proofs\<close>

lemma update_ui_toolResponses: "toolResponses (update_ui args st) = toolResponses st"
  by (simp add: update_ui_def set_feedback_def set_status_def set_question_def)

lemma update_ui_history: "history (update_ui args st) = history st"
  by (simp add: update_ui_def set_feedback_def set_status_def set_question_def)

lemma handle_calls_filter:
  "handle_calls calls st rs = handle_calls (filter (\<lambda>c. call_name c = ''update_ui'') calls) st rs"
  by (induction calls arbitrary: st rs) simp_all

lemma handle_calls_responses:
  "snd (handle_calls calls st rs) = rs @ map ack (filter (\<lambda>c. call_name c = ''update_ui'') calls)"
  by (induction calls arbitrary: st rs) simp_all

lemma handle_calls_toolResponses:
  "toolResponses (fst (handle_calls calls st rs)) = toolResponses st"
  by (induction calls arbitrary: st rs) (simp_all add: update_ui_toolResponses)

lemma handle_calls_history: "history (fst (handle_calls calls st rs)) = history st"
  by (induction calls arbitrary: st rs) (simp_all add: update_ui_history)

lemma handle_toolCall_history: "history (handle_toolCall calls st) = history st"
proof -
  obtain st' rs where h: "handle_calls calls st [] = (st', rs)"
    by (cases "handle_calls calls st []")
  then have "history st' = history st"
    using handle_calls_history [of calls st "[]"] by simp
  then show ?thesis by (simp add: handle_toolCall_def h)
qed

text \<open>
  Claim C4. A tool-call event with a batch of two \<open>update_ui\<close> calls applies the updates
  of both calls, the first call's first (so a field that both set ends with the second
  call's value), and sends one batch of exactly two acknowledgments, each a success result
  with the id and the name of its call, in the order of the calls.
\<close>

theorem batch_of_two_update_ui_calls:
  assumes "call_name c1 = ''update_ui''" and "call_name c2 = ''update_ui''"
  shows "handle_toolCall [c1, c2] st =
           (update_ui (call_args c2) (update_ui (call_args c1) st))
             \<lparr>toolResponses := toolResponses st @
                [[\<lparr>resp_id = call_id c1, resp_name = call_name c1, resp_result = ''success''\<rparr>,
                  \<lparr>resp_id = call_id c2, resp_name = call_name c2, resp_result = ''success''\<rparr>]]\<rparr>
         \<and> question (centerPanel (handle_toolCall [c1, c2] st)) =
             (if truthy (center_panel_question (call_args c2))
              then the (center_panel_question (call_args c2))
              else if truthy (center_panel_question (call_args c1))
              then the (center_panel_question (call_args c1))
              else question (centerPanel st))
         \<and> status (centerPanel (handle_toolCall [c1, c2] st)) =
             (if truthy (status_message (call_args c2))
              then the (status_message (call_args c2))
              else if truthy (status_message (call_args c1))
              then the (status_message (call_args c1))
              else status (centerPanel st))
         \<and> feedback (handle_toolCall [c1, c2] st) =
             (if truthy_value (feedback_arg (call_args c2))
              then feedback_arg (call_args c2)
              else if truthy_value (feedback_arg (call_args c1))
              then feedback_arg (call_args c1)
              else feedback st)"
  using assms
  by (simp add: handle_toolCall_def ack_def update_ui_toolResponses)
     (simp add: update_ui_def set_feedback_def set_status_def set_question_def)

theorem batch_of_two_update_ui_calls_witness:
  "call_name first_call = ''update_ui'' \<and> call_name second_call = ''update_ui''
   \<and> question (centerPanel (handle_toolCall [first_call, second_call] initial_state))
        = ''Tell me about yourself''
   \<and> status (centerPanel (handle_toolCall [first_call, second_call] initial_state))
        = ''Listening...''
   \<and> feedback (handle_toolCall [first_call, second_call] initial_state) = JsObject ()
   \<and> toolResponses (handle_toolCall [first_call, second_call] initial_state)
        = [[\<lparr>resp_id = ''call-1'', resp_name = ''update_ui'', resp_result = ''success''\<rparr>,
            \<lparr>resp_id = ''call-2'', resp_name = ''update_ui'', resp_result = ''success''\<rparr>]]"
proof -
  have n1: "call_name first_call = ''update_ui''"
    by (simp add: first_call_def)
  have n2: "call_name second_call = ''update_ui''"
    by (simp add: second_call_def)
  show ?thesis
    using batch_of_two_update_ui_calls [OF n1 n2, of "initial_state"]
    by (simp add: first_call_def second_call_def no_args_def initial_state_def
        initial_centerPanel_def update_ui_def set_question_def set_status_def
        set_feedback_def)
qed

text \<open>
  Claim C9. In a tool-call event, a call whose name is not \<open>update_ui\<close> is ignored: the
  event has the effect of the same event without such calls, and the batch sent back holds
  one acknowledgment for each call named \<open>update_ui\<close>, in order, and nothing else, so
  its length is the number of those calls.
\<close>

theorem non_update_ui_calls_ignored:
  "handle_toolCall calls st = handle_toolCall (filter (\<lambda>c. call_name c = ''update_ui'') calls) st
   \<and> toolResponses (handle_toolCall calls st)
       = toolResponses st @ [map ack (filter (\<lambda>c. call_name c = ''update_ui'') calls)]
   \<and> length (last (toolResponses (handle_toolCall calls st)))
       = length (filter (\<lambda>c. call_name c = ''update_ui'') calls)"
proof -
  obtain st' rs where h: "handle_calls calls st [] = (st', rs)"
    by (cases "handle_calls calls st []")
  have rs: "rs = map ack (filter (\<lambda>c. call_name c = ''update_ui'') calls)"
    using handle_calls_responses [of calls st "[]"] h by simp
  have tr: "toolResponses st' = toolResponses st"
    using handle_calls_toolResponses [of calls st "[]"] h by simp
  have 1: "handle_toolCall calls st
      = handle_toolCall (filter (\<lambda>c. call_name c = ''update_ui'') calls) st"
    unfolding handle_toolCall_def using handle_calls_filter [of calls st "[]"] by simp
  have 2: "toolResponses (handle_toolCall calls st)
       = toolResponses st @ [map ack (filter (\<lambda>c. call_name c = ''update_ui'') calls)]"
    by (simp add: handle_toolCall_def h rs tr)
  from 1 2 show ?thesis by simp
qed

text \<open>
  Claim C10. An \<open>update_ui\<close> call changes the question, the status and the feedback
  only where its argument is present and truthy, and nothing else of the state: a
  \<open>center_panel_question\<close>, \<open>status_message\<close> or \<open>feedback\<close> that is absent or is
  the empty string (or, for the feedback, is falsy in any other way) leaves the
  corresponding state as it was, so a non-empty question or status is never replaced by
  the empty string and a truthy feedback never by a falsy one; and each of the three
  updates leaves the fields of the other two as they were.
\<close>

theorem update_ui_frame:
  "update_ui args st =
     st\<lparr>centerPanel :=
          \<lparr>question = (if truthy (center_panel_question args)
                        then the (center_panel_question args) else question (centerPanel st)),
           status = (if truthy (status_message args)
                      then the (status_message args) else status (centerPanel st)),
           transcript = transcript (centerPanel st)\<rparr>,
        feedback := (if truthy_value (feedback_arg args)
                     then feedback_arg args else feedback st)\<rparr>
   \<and> (center_panel_question args = None \<or> center_panel_question args = Some []
        \<longrightarrow> question (centerPanel (update_ui args st)) = question (centerPanel st))
   \<and> (status_message args = None \<or> status_message args = Some []
        \<longrightarrow> status (centerPanel (update_ui args st)) = status (centerPanel st))
   \<and> (feedback_arg args = JsUndefined \<or> feedback_arg args = JsString []
        \<longrightarrow> feedback (update_ui args st) = feedback st)
   \<and> (\<not> truthy_value (feedback_arg args) \<longrightarrow> feedback (update_ui args st) = feedback st)
   \<and> (truthy_value (feedback_arg args) \<longrightarrow> feedback (update_ui args st) = feedback_arg args)
   \<and> (question (centerPanel st) \<noteq> [] \<longrightarrow> question (centerPanel (update_ui args st)) \<noteq> [])
   \<and> (status (centerPanel st) \<noteq> [] \<longrightarrow> status (centerPanel (update_ui args st)) \<noteq> [])
   \<and> (truthy_value (feedback st) \<longrightarrow> truthy_value (feedback (update_ui args st)))
   \<and> set_question args st =
       st\<lparr>centerPanel := (centerPanel st)
            \<lparr>question := (if truthy (center_panel_question args)
                           then the (center_panel_question args)
                           else question (centerPanel st))\<rparr>\<rparr>
   \<and> set_status args st =
       st\<lparr>centerPanel := (centerPanel st)
            \<lparr>status := (if truthy (status_message args)
                         then the (status_message args) else status (centerPanel st))\<rparr>\<rparr>
   \<and> set_feedback args st =
       st\<lparr>feedback := (if truthy_value (feedback_arg args)
                        then feedback_arg args else feedback st)\<rparr>"
  by (cases "center_panel_question args"; cases "status_message args";
      cases "truthy_value (feedback_arg args)")
     (auto simp: update_ui_def set_feedback_def set_status_def set_question_def)

theorem update_ui_frame_witness:
  "center_panel_question (call_args empty_question_call) = Some []
   \<and> feedback_arg (call_args empty_question_call) = JsString []
   \<and> question (centerPanel evaluated_state) = ''Ready to start?''
   \<and> feedback evaluated_state = JsObject ()
   \<and> update_ui (call_args empty_question_call) evaluated_state
       = evaluated_state\<lparr>centerPanel := initial_centerPanel\<lparr>status := ''Evaluating...''\<rparr>\<rparr>
   \<and> question (centerPanel (update_ui (call_args empty_question_call) evaluated_state))
       = ''Ready to start?''
   \<and> feedback (update_ui (call_args empty_question_call) evaluated_state) = JsObject ()"
  using update_ui_frame [of "call_args empty_question_call" evaluated_state]
  by (simp add: empty_question_call_def no_args_def evaluated_state_def initial_state_def
      initial_centerPanel_def)

section \<open>Transcripts: proofs\<close>

lemma handle_modelTurn_history: "history (handle_modelTurn now sc st) = history st"
  by (simp add: handle_modelTurn_def schedule_chunk_def Let_def split: option.splits)

lemma handle_outputTranscription_history:
  "history (handle_outputTranscription now sc st) =
     history st @ (if truthy (outputTranscription sc)
            then [new_message now Model (the (outputTranscription sc))] else [])"
  by (simp add: handle_outputTranscription_def)

lemma handle_inputTranscription_history:
  "history (handle_inputTranscription sc st) = history st"
  by (simp add: handle_inputTranscription_def)

lemma handle_turnComplete_history:
  "history (handle_turnComplete rendered now sc st) =
     history st @ (if turnComplete sc \<and> transcript rendered \<noteq> []
              then [new_message now User (transcript rendered)] else [])"
  by (simp add: handle_turnComplete_def)

lemma onmessage_history:
  "history (onmessage rendered currentTime now msg st) =
     history st @
       (case serverContent msg of
          None \<Rightarrow> []
        | Some sc \<Rightarrow>
           (if truthy (outputTranscription sc)
            then [new_message now Model (the (outputTranscription sc))] else [])
           @ (if turnComplete sc \<and> transcript rendered \<noteq> []
              then [new_message now User (transcript rendered)] else []))"
proof -
  let ?st1 = "case toolCall msg of Some calls \<Rightarrow> handle_toolCall calls st | None \<Rightarrow> st"
  have h1: "history ?st1 = history st"
    by (cases "toolCall msg") (simp_all add: handle_toolCall_history)
  show ?thesis
  proof (cases "serverContent msg")
    case None
    then show ?thesis using h1 by (simp add: onmessage_def)
  next
    case (Some sc)
    have "onmessage rendered currentTime now msg st =
            handle_turnComplete rendered now sc
               (handle_inputTranscription sc
                 (handle_outputTranscription now sc
                   (handle_modelTurn currentTime sc ?st1)))"
      by (simp add: onmessage_def Some)
    then show ?thesis
      by (simp only: handle_turnComplete_history handle_inputTranscription_history
            handle_outputTranscription_history handle_modelTurn_history h1 Some
            option.case append_assoc)
  qed
qed

lemma onmessages_history_prefix:
  "take (length (history st)) (history (onmessages rendered msgs st)) = history st"
proof (induction msgs arbitrary: st)
  case Nil
  show ?case by simp
next
  case (Cons m msgs)
  obtain currentTime now msg where m: "m = (currentTime, now, msg)"
    by (cases m)
  let ?st' = "onmessage rendered currentTime now msg st"
  obtain new where new: "history ?st' = history st @ new"
    using onmessage_history [of rendered currentTime now msg st] by blast
  have "take (length (history ?st')) (history (onmessages rendered msgs ?st')) = history ?st'"
    by (rule Cons.IH)
  then have "take (length (history st))
               (take (length (history ?st')) (history (onmessages rendered msgs ?st')))
               = take (length (history st)) (history ?st')"
    by simp
  then show ?case
    by (simp add: m new min_def)
qed

text \<open>
  Claim C1. After the partial input transcripts \<open>h\<close>, \<open>he\<close>, \<open>hello\<close> and a
  turn-complete signal, the history should hold exactly one new entry \<open>hello\<close> and
  the transcript buffer should be empty. In the first session of a page the handler
  commits nothing: the transcript it tests is the one of the render that started the
  session, which is empty, so the history stays empty and the buffer keeps \<open>hello\<close>.
\<close>

theorem first_session_commits_nothing:
  "history first_session = [] \<and> transcript (centerPanel first_session) = ''hello''"
  by (simp add: first_session_def connectToGemini_def initial_state_def initial_centerPanel_def
      onopen_def router_defs input_transcript_msg_def turn_complete_msg_def no_content_def)

text \<open>
  Claim C3. Of two turn-complete signals with no input transcript in between, only the
  first should append to the history. In a session started while the buffer still holds
  \<open>hello\<close>, both append an entry \<open>hello\<close>: the guard reads the transcript of the
  render that started the session, which clearing the buffer does not change.
\<close>

theorem second_session_commits_twice:
  "map_sum id history second_session
     = Inr [new_message 5 User ''hello'', new_message 6 User ''hello'']"
  by (simp add: second_session_def first_session_def connectToGemini_def initial_state_def
      initial_centerPanel_def onopen_def router_defs input_transcript_msg_def
      turn_complete_msg_def no_content_def onclose_def cleanup_def
      close_outputAudioContext_def close_inputAudioContext_def release_inputSource_def
      release_processor_def)

text \<open>
  Claim C7, as stated: handling a message leaves the history unchanged or appends exactly
  one entry. A message that carries an output transcription and the turn-complete signal
  appends two.
\<close>

theorem two_entries_in_one_message:
  "history (onmessage (initial_centerPanel\<lparr>transcript := ''hello''\<rparr>) 0 7
              (output_and_turn_complete_msg ''hi'') (initial_state :: unit app_state))
     = [new_message 7 Model ''hi'', new_message 7 User ''hello'']
   \<and> history (initial_state :: unit app_state) = []"
  by (simp add: router_defs output_and_turn_complete_msg_def no_content_def initial_state_def
       initial_centerPanel_def)

text \<open>
  Claim C7, amended. The history is append-only: handling a message keeps the entries
  that are there and appends at most two, first a model entry with the text of the
  output transcription when the message has a non-empty one (one entry for each such
  chunk, never merged into an earlier entry), then at most one user entry when the
  message signals turn-complete; over any sequence of messages the old history stays
  a prefix of the new one.
\<close>

theorem history_append_only:
  "history (onmessage rendered currentTime now msg st) =
     history st @
       (case serverContent msg of
          None \<Rightarrow> []
        | Some sc \<Rightarrow>
           (if truthy (outputTranscription sc)
            then [new_message now Model (the (outputTranscription sc))] else [])
           @ (if turnComplete sc \<and> transcript rendered \<noteq> []
              then [new_message now User (transcript rendered)] else []))
   \<and> take (length (history st)) (history (onmessages rendered msgs st)) = history st"
  using onmessage_history [of rendered currentTime now msg st]
    onmessages_history_prefix [of st rendered msgs]
  by simp

theorem history_append_only_witness:
  "history (onmessage initial_centerPanel 0 7 (output_and_turn_complete_msg ''hi'')
              (initial_state :: unit app_state))
     = [new_message 7 Model ''hi'']"
  using history_append_only [of initial_centerPanel 0 7 "output_and_turn_complete_msg ''hi''"
      "initial_state :: unit app_state" "[]"]
  by (simp add: output_and_turn_complete_msg_def no_content_def initial_state_def
      initial_centerPanel_def)

section \<open>Playback scheduler: proofs\<close>

lemma schedule_all_append:
  "schedule_all (cs @ ds) st = schedule_all ds (schedule_all cs st)"
  by (induction cs arbitrary: st) simp_all

lemma schedule_chunk_cursor:
  "nextStartTimeRef (schedule_chunk now dur st) = max now (nextStartTimeRef st) + dur"
  by (simp add: schedule_chunk_def Let_def)

lemma schedule_chunk_queue:
  "audioQueueRef (schedule_chunk now dur st) =
     audioQueueRef st @
       [\<lparr>sid = created st, started = True, startTime = max now (nextStartTimeRef st),
         duration = dur\<rparr>]"
  by (simp add: schedule_chunk_def Let_def)

text \<open>
  A message that carries one audio part and nothing else, handled while the output
  context is there, is one scheduling step.
\<close>

lemma onmessage_audio:
  "outputAudioContextRef st = Some ctx \<Longrightarrow>
   onmessage rendered currentTime now (audio_msg dur) st = schedule_chunk currentTime dur st"
  by (simp add: router_defs audio_msg_def no_content_def)

lemma schedule_all_cursor_mono:
  "\<forall>c\<in>set cs. 0 \<le> snd c \<Longrightarrow> nextStartTimeRef st \<le> nextStartTimeRef (schedule_all cs st)"
proof (induction cs arbitrary: st)
  case Nil
  show ?case by simp
next
  case (Cons c cs)
  have "nextStartTimeRef st \<le> nextStartTimeRef (schedule_chunk (fst c) (snd c) st)"
    using Cons.prems by (simp add: schedule_chunk_cursor max_def)
  also have "\<dots> \<le> nextStartTimeRef (schedule_all cs (schedule_chunk (fst c) (snd c) st))"
    using Cons.prems by (intro Cons.IH) simp
  finally show ?case by simp
qed

lemma schedule_all_take_Suc:
  assumes "k < length cs"
  shows "schedule_all (take (Suc k) cs) st =
           schedule_chunk (fst (cs ! k)) (snd (cs ! k)) (schedule_all (take k cs) st)"
  using assms by (simp add: take_Suc_conv_app_nth schedule_all_append)

lemma schedule_all_prefix_cursor_mono:
  assumes "\<forall>c\<in>set cs. 0 \<le> snd c" and "i \<le> j"
  shows "nextStartTimeRef (schedule_all (take i cs) st)
           \<le> nextStartTimeRef (schedule_all (take j cs) st)"
proof -
  have "take j cs = take i cs @ drop i (take j cs)"
    using assms(2) by (metis append_take_drop_id min.absorb_iff2 take_take min.commute)
  then have "schedule_all (take j cs) st
               = schedule_all (drop i (take j cs)) (schedule_all (take i cs) st)"
    by (metis schedule_all_append)
  moreover have "\<forall>c\<in>set (drop i (take j cs)). 0 \<le> snd c"
    using assms(1) by (meson in_set_dropD in_set_takeD)
  ultimately show ?thesis
    by (simp add: schedule_all_cursor_mono)
qed

lemma schedule_all_queue_length:
  "length (audioQueueRef (schedule_all cs st)) = length (audioQueueRef st) + length cs"
  by (induction cs arbitrary: st) (simp_all add: schedule_chunk_queue)

lemma schedule_all_queue_prefix:
  "take (length (audioQueueRef st)) (audioQueueRef (schedule_all cs st)) = audioQueueRef st"
proof (induction cs arbitrary: st)
  case Nil
  show ?case by simp
next
  case (Cons c cs)
  let ?st' = "schedule_chunk (fst c) (snd c) st"
  have "take (length (audioQueueRef st))
          (take (length (audioQueueRef ?st')) (audioQueueRef (schedule_all cs ?st')))
        = take (length (audioQueueRef st)) (audioQueueRef ?st')"
    by (simp only: Cons.IH)
  then show ?case
    by (simp add: schedule_chunk_queue min_def)
qed

lemma schedule_all_queue_nth:
  assumes "k < length cs"
  shows "audioQueueRef (schedule_all cs st) ! (length (audioQueueRef st) + k) =
           \<lparr>sid = created (schedule_all (take k cs) st), started = True,
            startTime = max (fst (cs ! k)) (nextStartTimeRef (schedule_all (take k cs) st)),
            duration = snd (cs ! k)\<rparr>"
proof -
  let ?pre = "schedule_all (take k cs) st"
  let ?mid = "schedule_all (take (Suc k) cs) st"
  have cs: "cs = take (Suc k) cs @ drop (Suc k) cs" by simp
  have fin: "schedule_all cs st = schedule_all (drop (Suc k) cs) ?mid"
    by (metis cs schedule_all_append)
  have len: "length (audioQueueRef ?mid) = length (audioQueueRef st) + Suc k"
    using assms by (simp add: schedule_all_queue_length)
  have "take (length (audioQueueRef ?mid)) (audioQueueRef (schedule_all cs st)) = audioQueueRef ?mid"
    unfolding fin by (rule schedule_all_queue_prefix)
  then have "audioQueueRef (schedule_all cs st) ! (length (audioQueueRef st) + k)
               = audioQueueRef ?mid ! (length (audioQueueRef st) + k)"
    using len by (metis lessI nat_add_left_cancel_less nth_take)
  also have "\<dots> = \<lparr>sid = created ?pre, started = True,
            startTime = max (fst (cs ! k)) (nextStartTimeRef ?pre), duration = snd (cs ! k)\<rparr>"
    using assms
    by (simp add: schedule_all_take_Suc schedule_chunk_queue nth_append
        schedule_all_queue_length min_def)
  finally show ?thesis .
qed

text \<open>
  Claim C2. For chunks scheduled in arrival order, each of a duration that is not
  negative: the chunk at position \<open>k\<close> is started at the later of the context time at
  its arrival and the cursor left by the chunks before it, and the cursor then moves to
  that start plus the chunk's duration; so the cursor never decreases from one chunk to
  the next, and of any two chunks the later one starts no earlier than the start of the
  earlier one plus the earlier one's duration.
\<close>

theorem playback_cursor_monotone_no_overlap:
  assumes "\<forall>c\<in>set chunks. 0 \<le> snd c"
  shows "(\<forall>k<length chunks.
            audioQueueRef (schedule_all (take (Suc k) chunks) st) =
              audioQueueRef (schedule_all (take k chunks) st) @
                [\<lparr>sid = created (schedule_all (take k chunks) st), started = True,
                  startTime = max (fst (chunks ! k))
                                  (nextStartTimeRef (schedule_all (take k chunks) st)),
                  duration = snd (chunks ! k)\<rparr>]
            \<and> nextStartTimeRef (schedule_all (take (Suc k) chunks) st) =
                max (fst (chunks ! k)) (nextStartTimeRef (schedule_all (take k chunks) st))
                  + snd (chunks ! k)
            \<and> nextStartTimeRef (schedule_all (take k chunks) st)
                \<le> nextStartTimeRef (schedule_all (take (Suc k) chunks) st))
         \<and> (\<forall>i j. i < j \<and> j < length chunks \<longrightarrow>
               startTime (audioQueueRef (schedule_all chunks st) ! (length (audioQueueRef st) + i))
                 + duration (audioQueueRef (schedule_all chunks st) ! (length (audioQueueRef st) + i))
               \<le> startTime (audioQueueRef (schedule_all chunks st) ! (length (audioQueueRef st) + j)))"
proof (intro conjI allI impI)
  fix k assume k: "k < length chunks"
  show "audioQueueRef (schedule_all (take (Suc k) chunks) st) =
              audioQueueRef (schedule_all (take k chunks) st) @
                [\<lparr>sid = created (schedule_all (take k chunks) st), started = True,
                  startTime = max (fst (chunks ! k))
                                  (nextStartTimeRef (schedule_all (take k chunks) st)),
                  duration = snd (chunks ! k)\<rparr>]"
    using k by (simp add: schedule_all_take_Suc schedule_chunk_queue)
  show "nextStartTimeRef (schedule_all (take (Suc k) chunks) st) =
                max (fst (chunks ! k)) (nextStartTimeRef (schedule_all (take k chunks) st))
                  + snd (chunks ! k)"
    using k by (simp add: schedule_all_take_Suc schedule_chunk_cursor)
  show "nextStartTimeRef (schedule_all (take k chunks) st)
                \<le> nextStartTimeRef (schedule_all (take (Suc k) chunks) st)"
    using assms by (intro schedule_all_prefix_cursor_mono) simp_all
next
  fix i j assume ij: "i < j \<and> j < length chunks"
  let ?q = "audioQueueRef (schedule_all chunks st)"
  let ?n = "length (audioQueueRef st)"
  have i: "i < length chunks" and j: "j < length chunks" using ij by simp_all
  have "startTime (?q ! (?n + i)) + duration (?q ! (?n + i))
          = nextStartTimeRef (schedule_all (take (Suc i) chunks) st)"
    using i by (simp add: schedule_all_queue_nth schedule_all_take_Suc schedule_chunk_cursor)
  also have "\<dots> \<le> nextStartTimeRef (schedule_all (take j chunks) st)"
    using assms ij by (intro schedule_all_prefix_cursor_mono) simp_all
  also have "\<dots> \<le> startTime (?q ! (?n + j))"
    using j by (simp add: schedule_all_queue_nth)
  finally show "startTime (?q ! (?n + i)) + duration (?q ! (?n + i)) \<le> startTime (?q ! (?n + j))" .
qed

theorem playback_cursor_monotone_no_overlap_witness:
  "list_all (\<lambda>c. 0 \<le> snd c) three_chunks
   \<and> map startTime (audioQueueRef (schedule_all three_chunks (initial_state :: unit app_state)))
       = [0, 1, 5]
   \<and> nextStartTimeRef (schedule_all three_chunks (initial_state :: unit app_state)) = 6"
proof -
  have h: "\<forall>c\<in>set three_chunks. 0 \<le> snd c"
    by (simp add: three_chunks_def)
  show ?thesis
    using h playback_cursor_monotone_no_overlap [OF h, of "initial_state :: unit app_state"]
    by (simp add: three_chunks_def schedule_chunk_def initial_state_def)
qed

section \<open>Capture pipeline: proofs\<close>

lemma sum_loop_sum_list: "sum_loop xs acc = acc + (\<Sum>x\<leftarrow>xs. x * x)"
  by (induction xs arbitrary: acc) simp_all

lemma sum_loop_squares: "sum_loop xs 0 = (\<Sum>i<length xs. (xs ! i)\<^sup>2)"
proof -
  have "sum_loop xs 0 = sum_list (map (\<lambda>x. x * x) xs)"
    by (simp add: sum_loop_sum_list)
  also have "\<dots> = (\<Sum>i = 0..<length xs. (xs ! i) * (xs ! i))"
    by (simp add: sum_list_sum_nth)
  also have "\<dots> = (\<Sum>i<length xs. (xs ! i)\<^sup>2)"
    by (simp add: power2_eq_square lessThan_atLeast0)
  finally show ?thesis .
qed

text \<open>
  Claim C8. Every run of the microphone callback on a window \<open>x\<^sub>0, \<dots>, x\<^sub>N\<^sub>-\<^sub>1\<close> sets the
  volume, whatever it was, to the root mean square of the window, the square root of
  \<open>(x\<^sub>0\<^sup>2 + \<dots> + x\<^sub>N\<^sub>-\<^sub>1\<^sup>2) / N\<close> (NaN for a window of no samples, where the quotient is
  \<open>0 / 0\<close>), and sends the encoded window to the session.
\<close>

theorem volume_is_root_mean_square:
  "volume (onaudioprocess encoder inputData st) =
     (if inputData = [] then None
      else Some (sqrt ((\<Sum>i<length inputData. (inputData ! i)\<^sup>2) / real (length inputData))))
   \<and> realtimeInput (onaudioprocess encoder inputData st)
       = realtimeInput st @ [encoder inputData]"
  by (simp add: onaudioprocess_def Let_def sum_loop_squares)

theorem volume_is_root_mean_square_witness:
  "volume (onaudioprocess (\<lambda>xs. \<lparr>data = [], mimeType = []\<rparr>) [1, - 1, 1, - 1]
             (initial_state :: unit app_state)) = Some 1"
  using volume_is_root_mean_square [of "\<lambda>xs. \<lparr>data = [], mimeType = []\<rparr>" "[1, - 1, 1, - 1]"
      "initial_state :: unit app_state"]
  by (simp add: lessThan_Suc numeral_eq_Suc)

section \<open>Teardown: proofs\<close>

lemma filter_removeAll:
  "filter P (removeAll x ys) = filter (\<lambda>i. i \<noteq> x \<and> P i) ys"
  by (induction ys) auto

lemma stop_all_started:
  "list_all started ss \<Longrightarrow>
   stop_all ss st = Inr (st\<lparr>playing := filter (\<lambda>i. i \<notin> sid ` set ss) (playing st)\<rparr>)"
proof (induction ss arbitrary: st)
  case Nil
  show ?case by simp
next
  case (Cons s ss)
  have f: "filter (\<lambda>i. i \<notin> sid ` set ss) (removeAll (sid s) (playing st))
             = filter (\<lambda>i. i \<notin> sid ` set (s # ss)) (playing st)"
    by (simp add: filter_removeAll)
  have "stop_all (s # ss) st = stop_all ss (st\<lparr>playing := removeAll (sid s) (playing st)\<rparr>)"
    using Cons.prems by (simp add: stop_def)
  also have "\<dots> = Inr (st\<lparr>playing := filter (\<lambda>i. i \<notin> sid ` set ss)
                                   (removeAll (sid s) (playing st))\<rparr>)"
    using Cons.prems by (simp add: Cons.IH)
  finally show ?case
    by (simp only: f)
qed

lemma released_refs:
  "processorRef (released st) = None" "inputSourceRef (released st) = None"
  "inputAudioContextRef (released st) = None" "outputAudioContextRef (released st) = None"
  "audioQueueRef (released st) = audioQueueRef st" "playing (released st) = playing st"
  by (simp_all add: released_def release_processor_def release_inputSource_def
      close_inputAudioContext_def close_outputAudioContext_def split: option.splits)

lemma released_idle:
  "processorRef st = None \<Longrightarrow> inputSourceRef st = None \<Longrightarrow> inputAudioContextRef st = None
   \<Longrightarrow> outputAudioContextRef st = None \<Longrightarrow> released st = st"
  by (simp add: released_def release_processor_def release_inputSource_def
      close_inputAudioContext_def close_outputAudioContext_def)

text \<open>With the queue as the scheduler keeps it, \<open>cleanup\<close> returns, and every source is stopped.\<close>

lemma cleanup_queue_inv:
  assumes "queue_inv st"
  shows "cleanup st = Inr ((released st)\<lparr>playing := [], audioQueueRef := []\<rparr>)"
proof -
  have s: "list_all started (audioQueueRef (released st))"
    using assms by (simp add: queue_inv_def released_refs)
  have "filter (\<lambda>i. i \<notin> sid ` set (audioQueueRef st)) (playing st) = []"
    using assms by (simp add: queue_inv_def list_all_iff filter_empty_conv)
  then show ?thesis
    using stop_all_started [OF s, of "released st"]
    by (simp add: cleanup_def Let_def released_def [symmetric] released_refs)
qed

lemma cleanup_idle:
  assumes "processorRef st = None" "inputSourceRef st = None" "inputAudioContextRef st = None"
    "outputAudioContextRef st = None" "audioQueueRef st = []"
  shows "cleanup st = Inr st"
  using assms by (simp add: cleanup_def Let_def released_def [symmetric] released_idle)

lemma update_ui_queue:
  "audioQueueRef (update_ui args st) = audioQueueRef st"
  "playing (update_ui args st) = playing st"
  by (simp_all add: update_ui_def set_feedback_def set_status_def set_question_def
      split: option.splits)

lemma handle_calls_queue:
  "audioQueueRef (fst (handle_calls calls st rs)) = audioQueueRef st
   \<and> playing (fst (handle_calls calls st rs)) = playing st"
  by (induction calls arbitrary: st rs) (simp_all add: update_ui_queue)

lemma handle_toolCall_queue:
  "audioQueueRef (handle_toolCall calls st) = audioQueueRef st"
  "playing (handle_toolCall calls st) = playing st"
proof -
  obtain st' rs where h: "handle_calls calls st [] = (st', rs)"
    by (cases "handle_calls calls st []")
  then have "audioQueueRef st' = audioQueueRef st \<and> playing st' = playing st"
    using handle_calls_queue [of calls st "[]"] by simp
  then show "audioQueueRef (handle_toolCall calls st) = audioQueueRef st"
    and "playing (handle_toolCall calls st) = playing st"
    by (simp_all add: handle_toolCall_def h)
qed

lemma queue_inv_schedule_chunk:
  "queue_inv st \<Longrightarrow> queue_inv (schedule_chunk now dur st)"
  by (auto simp: queue_inv_def schedule_chunk_def Let_def list_all_iff)

lemma queue_inv_handle_modelTurn:
  "queue_inv st \<Longrightarrow> queue_inv (handle_modelTurn now sc st)"
  by (simp add: handle_modelTurn_def queue_inv_schedule_chunk split: option.splits)

lemma transcript_handlers_queue:
  "audioQueueRef (handle_outputTranscription now sc st) = audioQueueRef st"
  "playing (handle_outputTranscription now sc st) = playing st"
  "audioQueueRef (handle_inputTranscription sc st) = audioQueueRef st"
  "playing (handle_inputTranscription sc st) = playing st"
  "audioQueueRef (handle_turnComplete rendered now sc st) = audioQueueRef st"
  "playing (handle_turnComplete rendered now sc st) = playing st"
  by (simp_all add: handle_outputTranscription_def handle_inputTranscription_def
      handle_turnComplete_def)

lemma queue_inv_onmessage:
  assumes "queue_inv st"
  shows "queue_inv (onmessage rendered currentTime now msg st)"
proof -
  let ?st1 = "case toolCall msg of Some calls \<Rightarrow> handle_toolCall calls st | None \<Rightarrow> st"
  have 1: "queue_inv ?st1"
    using assms by (cases "toolCall msg") (simp_all add: queue_inv_def handle_toolCall_queue)
  show ?thesis
  proof (cases "serverContent msg")
    case None
    then show ?thesis using 1 by (simp add: onmessage_def)
  next
    case (Some sc)
    have "queue_inv (handle_modelTurn currentTime sc ?st1)"
      using 1 by (rule queue_inv_handle_modelTurn)
    then have "queue_inv (handle_turnComplete rendered now sc
               (handle_inputTranscription sc
                 (handle_outputTranscription now sc
                   (handle_modelTurn currentTime sc ?st1))))"
      by (simp add: queue_inv_def transcript_handlers_queue)
    then show ?thesis
      by (simp add: onmessage_def Some)
  qed
qed

lemma sid_splice_source:
  "i \<in> sid ` set q \<Longrightarrow> i \<noteq> j \<Longrightarrow> i \<in> sid ` set (splice_source j q)"
  by (induction q) auto

lemma set_splice_source: "set (splice_source j q) \<subseteq> set q"
  by (induction q) auto

lemma queue_inv_onended: "queue_inv st \<Longrightarrow> queue_inv (onended source st)"
  using set_splice_source [of "sid source" "audioQueueRef st"]
  by (auto simp: queue_inv_def onended_def list_all_iff sid_splice_source)

lemma reachable_queue_inv: "reachable st \<Longrightarrow> queue_inv st"
proof (induction rule: reachable.induct)
  case init
  show ?case by (simp add: queue_inv_def initial_state_def)
next
  case (connect st)
  then show ?case by (simp add: queue_inv_def connectToGemini_def)
next
  case (opened st)
  then show ?case by (simp add: queue_inv_def onopen_def Let_def split: option.splits)
next
  case (message st rendered currentTime now msg)
  then show ?case by (simp add: queue_inv_onmessage)
next
  case (resumed st currentTime dur)
  then show ?case by (simp add: queue_inv_schedule_chunk)
next
  case (capture st encoder inputData)
  then show ?case by (simp add: queue_inv_def onaudioprocess_def Let_def)
next
  case (ended st source)
  then show ?case by (simp add: queue_inv_onended)
next
  case (end_session st)
  then show ?case by (simp add: queue_inv_def handleEndSession_def)
next
  case (closed st st')
  have "queue_inv (st\<lparr>active := False,
            centerPanel := (centerPanel st)\<lparr>status := ''Session Ended''\<rparr>\<rparr>)"
    using closed.IH by (simp add: queue_inv_def)
  from cleanup_queue_inv [OF this] closed.hyps(2) show ?case
    by (auto simp: onclose_def queue_inv_def)
next
  case (failed st st')
  have "queue_inv (st\<lparr>active := False,
            centerPanel := (centerPanel st)\<lparr>status := ''Error connecting''\<rparr>\<rparr>)"
    using failed.IH by (simp add: queue_inv_def)
  from cleanup_queue_inv [OF this] failed.hyps(2) show ?case
    by (auto simp: onerror_def queue_inv_def)
qed

text \<open>
  Claim C6. In every state the component can reach, \<open>cleanup\<close> called twice in
  succession raises nothing: the first call returns a state in which no source plays,
  the queue is empty and the four refs are null, and the second call returns that same
  state, so it releases, closes and stops nothing.
\<close>

theorem cleanup_twice:
  assumes "reachable st"
  shows "\<exists>st1. cleanup st = Inr st1 \<and> cleanup st1 = Inr st1
           \<and> playing st1 = [] \<and> audioQueueRef st1 = []
           \<and> processorRef st1 = None \<and> inputSourceRef st1 = None
           \<and> inputAudioContextRef st1 = None \<and> outputAudioContextRef st1 = None"
proof -
  let ?st1 = "(released st)\<lparr>playing := [], audioQueueRef := []\<rparr>"
  have 1: "cleanup st = Inr ?st1"
    using assms by (intro cleanup_queue_inv reachable_queue_inv)
  have 2: "cleanup ?st1 = Inr ?st1"
    by (rule cleanup_idle) (simp_all add: released_refs)
  show ?thesis
    using 1 2 by (intro exI [of _ ?st1]) (simp add: released_refs)
qed

lemma playing_session_value:
  "playing playing_session = [4, 5] \<and> map sid (audioQueueRef playing_session) = [4, 5]
   \<and> processorRef playing_session = Some 3"
  by (simp add: playing_session_def router_defs audio_msg_def no_content_def onopen_def
      connectToGemini_def initial_state_def schedule_chunk_def Let_def)

theorem cleanup_twice_witness:
  "reachable playing_session \<and> playing playing_session = [4, 5]
   \<and> map_sum id playing (cleanup playing_session) = Inr []
   \<and> map_sum id audioQueueRef (cleanup playing_session) = Inr []
   \<and> (case cleanup playing_session of Inl e \<Rightarrow> False | Inr st1 \<Rightarrow> cleanup st1 = Inr st1)"
proof -
  have r: "reachable playing_session"
    unfolding playing_session_def
    by (intro reachable.message reachable.opened reachable.connect reachable.init)
  from cleanup_twice [OF r] obtain st1 where
    "cleanup playing_session = Inr st1" "cleanup st1 = Inr st1"
    "playing st1 = []" "audioQueueRef st1 = []"
    by blast
  then show ?thesis
    using r playing_session_value by simp
qed

section \<open>PCM encoder: proofs\<close>

lemma sextets_bounds:
  fixes a b c :: nat
  assumes "a < 256" "b < 256" "c < 256"
  shows "a div 4 < 64" "(a mod 4) * 16 < 64" "(a mod 4) * 16 + b div 16 < 64"
    "(b mod 16) * 4 < 64" "(b mod 16) * 4 + c div 64 < 64" "c mod 64 < 64"
  using assms by simp_all

lemma byte1a: "(a div 4) * 4 + ((a mod 4) * 16) div 16 = (a::nat)"
  by simp

lemma byte1: "b < 256 \<Longrightarrow> (a div 4) * 4 + ((a mod 4) * 16 + b div 16) div 16 = (a::nat)"
  by (simp add: div_add1_eq)

lemma byte2a: "b < 256 \<Longrightarrow>
  (((a mod 4) * 16 + b div 16) mod 16) * 16 + ((b mod 16) * 4) div 4 = (b::nat)"
  by (simp add: mod_add_eq [symmetric] )

lemma byte2: "b < 256 \<Longrightarrow> c < 256 \<Longrightarrow>
  (((a mod 4) * 16 + b div 16) mod 16) * 16 + ((b mod 16) * 4 + c div 64) div 4 = (b::nat)"
  by (simp add: div_add1_eq)

lemma byte3: "c < 256 \<Longrightarrow> (((b mod 16) * 4 + c div 64) mod 4) * 64 + c mod 64 = (c::nat)"
  by simp

lemma b64_table:
  "list_all (\<lambda>n. b64_index (b64_char n) = Some n \<and> b64_char n \<noteq> CHR ''='') [0..<64]"
  by code_simp

lemma b64_index_char: "n < 64 \<Longrightarrow> b64_index (b64_char n) = Some n"
  using b64_table by (simp add: list_all_iff)

lemma b64_char_not_pad: "n < 64 \<Longrightarrow> b64_char n \<noteq> CHR ''=''"
  using b64_table by (simp add: list_all_iff)

lemma base64_decode_encode: "base64_decode (base64_encode bytes) = Some bytes"
proof (induction bytes rule: base64_encode.induct)
  case 1
  show ?case by simp
next
  case (2 a)
  define m :: nat where "m = of_char a"
  have m: "m < 256" by (simp add: m_def)
  have a: "char_of m = a" by (simp add: m_def)
  have "base64_decode [b64_char (m div 4), b64_char ((m mod 4) * 16), CHR ''='', CHR ''='']
          = Some [char_of ((m div 4) * 4 + ((m mod 4) * 16) div 16)]"
    using sextets_bounds [OF m m m] by (simp add: b64_index_char)
  then show ?case
    by (simp only: base64_encode.simps m_def [symmetric] byte1a a)
next
  case (3 a b)
  define m :: nat where "m = of_char a"
  define n :: nat where "n = of_char b"
  have m: "m < 256" and n: "n < 256" by (simp_all add: m_def n_def)
  have a: "char_of m = a" and b: "char_of n = b" by (simp_all add: m_def n_def)
  let ?s2 = "(m mod 4) * 16 + n div 16"
  let ?s3 = "(n mod 16) * 4"
  have "base64_decode [b64_char (m div 4), b64_char ?s2, b64_char ?s3, CHR ''='']
          = Some [char_of ((m div 4) * 4 + ?s2 div 16), char_of ((?s2 mod 16) * 16 + ?s3 div 4)]"
    using sextets_bounds [OF m n n] by (simp add: b64_index_char b64_char_not_pad)
  then show ?case
    by (simp only: base64_encode.simps m_def [symmetric] n_def [symmetric]
        byte1 [OF n] byte2a [OF n] a b)
next
  case (4 a b c rest)
  define m :: nat where "m = of_char a"
  define n :: nat where "n = of_char b"
  define k :: nat where "k = of_char c"
  have m: "m < 256" and n: "n < 256" and k: "k < 256"
    by (simp_all add: m_def n_def k_def)
  have a: "char_of m = a" and b: "char_of n = b" and c: "char_of k = c"
    by (simp_all add: m_def n_def k_def)
  let ?s2 = "(m mod 4) * 16 + n div 16"
  let ?s3 = "(n mod 16) * 4 + k div 64"
  have "base64_decode ([b64_char (m div 4), b64_char ?s2, b64_char ?s3, b64_char (k mod 64)]
                         @ base64_encode rest)
          = Some (char_of ((m div 4) * 4 + ?s2 div 16) # char_of ((?s2 mod 16) * 16 + ?s3 div 4)
                    # char_of ((?s3 mod 4) * 64 + k mod 64) # rest)"
    using sextets_bounds [OF m n k] "4.IH"
    by (simp add: b64_index_char b64_char_not_pad)
  then show ?case
    by (simp only: base64_encode.simps m_def [symmetric] n_def [symmetric] k_def [symmetric]
        byte1 [OF n] byte2 [OF n k] byte3 [OF k] a b c)
qed

lemma int16_of_bytes_int16_bytes:
  assumes "- 32768 \<le> q" "q \<le> 32767"
  shows "int16_of_bytes (char_of (nat (q mod 65536) mod 256))
           (char_of (nat (q mod 65536) div 256)) = q"
proof -
  define u where "u = nat (q mod 65536)"
  have u: "u < 65536" by (simp add: u_def nat_less_iff)
  have hi: "u div 256 < 256" using u by simp
  have lo: "(of_char (char_of (u mod 256) :: char) :: nat) = u mod 256"
    by (simp add: of_char_of)
  have hi': "(of_char (char_of (u div 256) :: char) :: nat) = u div 256"
    using hi by (simp add: of_char_of)
  have "u mod 256 + 256 * (u div 256) = u"
    by simp
  then have 1: "int (u mod 256) + 256 * int (u div 256) = int u"
    by (metis of_nat_add of_nat_mult of_nat_numeral)
  have 2: "int u = q mod 65536" by (simp add: u_def)
  have 3: "q mod 65536 = (if 0 \<le> q then q else q + 65536)"
  proof (cases "0 \<le> q")
    case True
    then show ?thesis using assms by simp
  next
    case False
    then have "(q + 65536) mod 65536 = q + 65536"
      using assms by (intro mod_pos_pos_trivial) simp_all
    then show ?thesis using False by simp
  qed
  have 4: "int u = (if 0 \<le> q then q else q + 65536)"
    using 2 3 by simp
  have "int16_of_bytes (char_of (u mod 256)) (char_of (u div 256))
          = (if int u < 32768 then int u else int u - 65536)"
    by (simp only: int16_of_bytes_def Let_def lo hi' 1)
  also have "\<dots> = q"
    using assms by (simp add: 4)
  finally show ?thesis
    by (simp only: u_def)
qed

lemma int16_bytes_roundtrip:
  assumes "- 32768 \<le> q" "q \<le> 32767"
  shows "int16s_of_bytes (int16_bytes q @ rest)
           = map_option (\<lambda>qs. q # qs) (int16s_of_bytes rest)"
proof -
  have "int16_bytes q @ rest
          = char_of (nat (q mod 65536) mod 256) # char_of (nat (q mod 65536) div 256) # rest"
    by (simp only: int16_bytes_def Let_def append_Cons append_Nil)
  then show ?thesis
    by (simp only: int16s_of_bytes.simps int16_of_bytes_int16_bytes [OF assms])
qed

lemma int16s_of_bytes_int16_bytes:
  "\<forall>q\<in>set qs. - 32768 \<le> q \<and> q \<le> 32767 \<Longrightarrow>
   int16s_of_bytes (concat (map int16_bytes qs)) = Some qs"
  by (induction qs) (simp_all add: int16_bytes_roundtrip)

lemma trunc_bounds: "\<bar>real_of_int (trunc y) - y\<bar> < 1"
proof (cases "0 \<le> y")
  case True
  then show ?thesis by (simp add: trunc_def) linarith
next
  case False
  then show ?thesis by (simp add: trunc_def) linarith
qed

lemma trunc_mono: "x \<le> y \<Longrightarrow> trunc x \<le> trunc y"
proof -
  assume xy: "x \<le> y"
  have fc: "\<lfloor>x\<rfloor> \<le> \<lceil>x\<rceil>" by (rule floor_le_ceiling)
  show ?thesis
  proof (cases "0 \<le> x")
    case True
    then show ?thesis using xy by (simp add: trunc_def floor_mono)
  next
    case x: False
    show ?thesis
    proof (cases "0 \<le> y")
      case True
      have "\<lceil>x\<rceil> \<le> 0" using x by (simp add: ceiling_le_zero)
      moreover have "0 \<le> \<lfloor>y\<rfloor>" using True by simp
      ultimately have "\<lceil>x\<rceil> \<le> \<lfloor>y\<rfloor>" by (rule order_trans)
      then show ?thesis using x True by (simp add: trunc_def)
    next
      case False
      then show ?thesis using x xy by (simp add: trunc_def ceiling_mono)
    qed
  qed
qed

lemma trunc_of_int: "trunc (real_of_int n) = n"
  by (simp add: trunc_def)

lemma clamp_sample_range: "- 1 \<le> clamp_sample s \<and> clamp_sample s \<le> 1"
  by (simp add: clamp_sample_def)

lemma to_int16_range: "- 32768 \<le> to_int16 s \<and> to_int16 s \<le> 32767"
proof -
  have "real_of_int (- 32768) \<le> clamp_sample s * 32768"
    using clamp_sample_range [of s] by simp
  then have "trunc (real_of_int (- 32768)) \<le> trunc (clamp_sample s * 32768)"
    by (rule trunc_mono)
  then have "- 32768 \<le> trunc (clamp_sample s * 32768)"
    by (simp only: trunc_of_int)
  then show ?thesis
    by (simp add: to_int16_def)
qed

lemma clamp_sample_idem: "clamp_sample (clamp_sample s) = clamp_sample s"
  by (simp add: clamp_sample_def)

lemma to_int16_clamp_sample: "to_int16 (clamp_sample s) = to_int16 s"
  by (simp add: to_int16_def clamp_sample_idem)

lemma to_int16_close:
  assumes "- 1 \<le> s" "s \<le> 1"
  shows "\<bar>real_of_int (to_int16 s) / 32768 - s\<bar> \<le> 1 / 32768"
proof -
  define y where "y = s * 32768"
  have c: "clamp_sample s = s"
    using assms by (simp add: clamp_sample_def)
  have t: "\<bar>real_of_int (trunc y) - y\<bar> < 1"
    by (rule trunc_bounds)
  have y: "y \<le> 32768" using assms by (simp add: y_def)
  have q: "to_int16 s = min 32767 (trunc y)"
    by (simp add: to_int16_def c y_def)
  have "\<bar>real_of_int (to_int16 s) - y\<bar> \<le> 1"
  proof (cases "trunc y \<le> 32767")
    case True
    then show ?thesis using t by (simp add: q)
  next
    case False
    then have "32768 \<le> real_of_int (trunc y)" by simp
    then have "32767 < y" using t by linarith
    moreover have "to_int16 s = 32767" using False by (simp add: q)
    ultimately show ?thesis using y by simp
  qed
  then have "\<bar>real_of_int (to_int16 s) - y\<bar> / 32768 \<le> 1 / 32768"
    by (rule divide_right_mono) simp
  moreover have "real_of_int (to_int16 s) / 32768 - s = (real_of_int (to_int16 s) - y) / 32768"
    by (simp add: y_def diff_divide_distrib)
  moreover have "\<bar>(real_of_int (to_int16 s) - y) / 32768\<bar>
                   = \<bar>real_of_int (to_int16 s) - y\<bar> / 32768"
    by (simp only: abs_divide abs_numeral)
  ultimately show ?thesis by (simp only:)
qed

lemma decodePcm_createPcmBlob:
  "decodePcm (data (createPcmBlob mime samples))
     = Some (map (\<lambda>s. real_of_int (to_int16 s) / 32768) samples)"
proof -
  have "int16s_of_bytes (concat (map int16_bytes (map to_int16 samples)))
          = Some (map to_int16 samples)"
    by (rule int16s_of_bytes_int16_bytes) (simp add: to_int16_range)
  then show ?thesis
    by (simp add: decodePcm_def createPcmBlob_def base64_decode_encode comp_def)
qed

text \<open>
  Claim C5. For every buffer of samples the encoder returns a blob tagged with the fixed
  mime descriptor whose data is the base64 of the 16-bit little-endian samples: a sample
  outside \<open>[-1, 1]\<close> is encoded as the nearest end of the range (no input is refused),
  the data decodes to as many values as there are samples, and the value decoded for a
  sample in \<open>[-1, 1]\<close> is within one quantisation step, \<open>1 / 32768\<close>, of the sample.
\<close>

theorem pcm_encoding_round_trip:
  "mimeType (createPcmBlob mime samples) = mime
   \<and> createPcmBlob mime (map clamp_sample samples) = createPcmBlob mime samples
   \<and> (\<exists>decoded. decodePcm (data (createPcmBlob mime samples)) = Some decoded
         \<and> length decoded = length samples
         \<and> (\<forall>i<length samples. - 1 \<le> samples ! i \<and> samples ! i \<le> 1
               \<longrightarrow> \<bar>decoded ! i - samples ! i\<bar> \<le> 1 / 32768))"
proof (intro conjI)
  show "mimeType (createPcmBlob mime samples) = mime"
    by (simp add: createPcmBlob_def)
  show "createPcmBlob mime (map clamp_sample samples) = createPcmBlob mime samples"
    by (simp add: createPcmBlob_def comp_def to_int16_clamp_sample)
  show "\<exists>decoded. decodePcm (data (createPcmBlob mime samples)) = Some decoded
         \<and> length decoded = length samples
         \<and> (\<forall>i<length samples. - 1 \<le> samples ! i \<and> samples ! i \<le> 1
               \<longrightarrow> \<bar>decoded ! i - samples ! i\<bar> \<le> 1 / 32768)"
  proof (intro exI [of _ "map (\<lambda>s. real_of_int (to_int16 s) / 32768) samples"] conjI allI impI)
    show "decodePcm (data (createPcmBlob mime samples))
            = Some (map (\<lambda>s. real_of_int (to_int16 s) / 32768) samples)"
      by (rule decodePcm_createPcmBlob)
    show "length (map (\<lambda>s. real_of_int (to_int16 s) / 32768) samples) = length samples"
      by simp
    fix i assume i: "i < length samples"
      and r: "- 1 \<le> samples ! i \<and> samples ! i \<le> 1"
    have "\<bar>real_of_int (to_int16 (samples ! i)) / 32768 - samples ! i\<bar> \<le> 1 / 32768"
      using r by (intro to_int16_close) simp_all
    then show "\<bar>map (\<lambda>s. real_of_int (to_int16 s) / 32768) samples ! i - samples ! i\<bar>
                 \<le> 1 / 32768"
      using i by (simp only: nth_map)
  qed
qed

lemma three_samples_value:
  "data (createPcmBlob ''audio/pcm'' [1 / 2, - 1, 2]) = ''AEAAgP9/''"
  by (simp add: createPcmBlob_def to_int16_def clamp_sample_def trunc_def int16_bytes_def
      b64_char_def b64_alphabet_def)

theorem pcm_encoding_round_trip_witness:
  "data (createPcmBlob ''audio/pcm'' [1 / 2, - 1, 2]) = ''AEAAgP9/''
   \<and> map_option length (decodePcm ''AEAAgP9/'') = Some 3
   \<and> \<bar>the (decodePcm ''AEAAgP9/'') ! 0 - 1 / 2\<bar> \<le> 1 / 32768
   \<and> \<bar>the (decodePcm ''AEAAgP9/'') ! 1 - (- 1)\<bar> \<le> 1 / 32768"
proof -
  from pcm_encoding_round_trip [of "''audio/pcm''" "[1 / 2, - 1, 2]"]
  obtain decoded where d: "decodePcm ''AEAAgP9/'' = Some decoded" "length decoded = 3"
    and b: "\<forall>i<3. - 1 \<le> [1 / 2, - 1, 2 :: real] ! i \<and> [1 / 2, - 1, 2 :: real] ! i \<le> 1
               \<longrightarrow> \<bar>decoded ! i - [1 / 2, - 1, 2] ! i\<bar> \<le> 1 / 32768"
    by (auto simp: three_samples_value)
  from b have "\<bar>decoded ! 0 - 1 / 2\<bar> \<le> 1 / 32768"
    by (elim allE [of _ 0]) simp
  moreover from b have "\<bar>decoded ! 1 - (- 1)\<bar> \<le> 1 / 32768"
    by (elim allE [of _ 1]) simp
  ultimately show ?thesis
    using d three_samples_value by simp
qed

end
